theory Spec2Isabelle
  imports Main
begin

section \<open>Errors\<close>

text \<open>
  The JavaScript sources fail in two ways: an \<^verbatim>\<open>assert && assert( ... )\<close> that does not
  hold (assertions are taken as enabled, as the specification does), and a runtime
  \<^verbatim>\<open>TypeError\<close> (reading a property of \<^verbatim>\<open>undefined\<close>). Both are values of the model:
  a fallible function returns \<open>error + 'a\<close>, with \<open>Inl\<close> for the failure.
\<close>

datatype error = AssertionError | TypeError

section \<open>JavaScript string primitives\<close>

text \<open>
  Strings are character lists. \<open>indexOf\<close> and \<open>lastIndexOf\<close> are used by the sources
  with a one-character search string only, and return \<open>-1\<close> when it does not occur.
  \<open>substring\<close> clamps both indices to the string and swaps them when they are out of
  order, as \<^verbatim>\<open>String.prototype.substring\<close> does.
\<close>

definition indexOf :: "string \<Rightarrow> char \<Rightarrow> int" where
  "indexOf s c =
     (if c \<in> set s then int (length (takeWhile (\<lambda>x. x \<noteq> c) s)) else - 1)"

definition lastIndexOf :: "string \<Rightarrow> char \<Rightarrow> int" where
  "lastIndexOf s c =
     (if c \<in> set s
      then int (length s) - 1 - int (length (takeWhile (\<lambda>x. x \<noteq> c) (rev s)))
      else - 1)"

definition substring :: "string \<Rightarrow> int \<Rightarrow> int \<Rightarrow> string" where
  "substring s a b =
     (let n = int (length s);
          a' = max 0 (min a n);
          b' = max 0 (min b n);
          lo = min a' b';
          hi = max a' b'
      in take (nat (hi - lo)) (drop (nat lo) s))"

section \<open>PhetioIDUtils.js\<close>

definition SEPARATOR :: char where
  "SEPARATOR = CHR ''.''"

definition GROUP_SEPARATOR :: char where
  "GROUP_SEPARATOR = CHR ''_''"

text \<open>
  \<^verbatim>\<open>append( phetioID, ...componentNames )\<close>: the \<^verbatim>\<open>forEach\<close> visits the component names
  in order; one that contains the separator fails the assertion, and one that does not
  is appended behind a separator.
\<close>

fun append_phetioID :: "string \<Rightarrow> string list \<Rightarrow> error + string" where
  "append_phetioID phetioID [] = Inr phetioID"
| "append_phetioID phetioID (componentName # componentNames) =
     (if indexOf componentName SEPARATOR = - 1
      then append_phetioID (phetioID @ SEPARATOR # componentName) componentNames
      else Inl AssertionError)"

definition getComponentName :: "string \<Rightarrow> error + string" where
  "getComponentName phetioID =
     (if \<not> length phetioID > 0 then Inl AssertionError
      else let indexOfLastSeparator = lastIndexOf phetioID SEPARATOR
           in if indexOfLastSeparator = - 1 then Inr phetioID
              else Inr (substring phetioID (indexOfLastSeparator + 1) (int (length phetioID))))"

definition getParentID :: "string \<Rightarrow> error + string" where
  "getParentID phetioID =
     (let indexOfLastSeparator = lastIndexOf phetioID SEPARATOR
      in if \<not> indexOfLastSeparator \<noteq> - 1 then Inl AssertionError
         else Inr (substring phetioID 0 indexOfLastSeparator))"

definition isDynamicElement :: "string \<Rightarrow> bool" where
  "isDynamicElement phetioID = (indexOf phetioID GROUP_SEPARATOR \<ge> 0)"

section \<open>IO type objects\<close>

text \<open>
  An IO type is a JavaScript constructor function carrying static fields. The model
  keeps the name (\<^verbatim>\<open>typeName\<close>), the parameter types the object holds, and
  the object's identity \<open>typeRef\<close>: two type objects are the same object
  (\<^verbatim>\<open>===\<close>) exactly when their references are equal.
\<close>

datatype typeobj =
  TypeObj (typeRef: nat) (typeName: string) (typeParameters: "typeobj list")

section \<open>Tandem.js\<close>

record tandem =
  tandem_id :: string
  static :: bool
  tandemRequiredButNotSupplied :: bool
  enabled :: bool

text \<open>
  The \<^verbatim>\<open>options\<close> hash of the constructor and of \<^verbatim>\<open>createTandem\<close>: a key is either
  absent (\<open>None\<close>) or carries a flag. \<open>extend_options\<close> is \<^verbatim>\<open>_.extend( target, source )\<close> on
  these three keys: a key present in the source wins.
\<close>

record tandem_options =
  opt_static :: "bool option"
  opt_tandemRequiredButNotSupplied :: "bool option"
  opt_enabled :: "bool option"

definition no_options :: tandem_options where
  "no_options =
     \<lparr>opt_static = None, opt_tandemRequiredButNotSupplied = None, opt_enabled = None\<rparr>"

definition override :: "'a option \<Rightarrow> 'a option \<Rightarrow> 'a option" where
  "override target source = (case source of None \<Rightarrow> target | Some v \<Rightarrow> Some v)"

definition extend_options :: "tandem_options \<Rightarrow> tandem_options \<Rightarrow> tandem_options" where
  "extend_options target source =
     \<lparr>opt_static = override (opt_static target) (opt_static source),
      opt_tandemRequiredButNotSupplied =
        override (opt_tandemRequiredButNotSupplied target)
          (opt_tandemRequiredButNotSupplied source),
      opt_enabled = override (opt_enabled target) (opt_enabled source)\<rparr>"

text \<open>
  \<^verbatim>\<open>function Tandem( id, options )\<close>: the options are laid over the defaults
  \<^verbatim>\<open>{ static: false, tandemRequiredButNotSupplied: false, enabled: true }\<close>, and an
  undefined id becomes the empty string.
\<close>

definition new_Tandem :: "string option \<Rightarrow> tandem_options \<Rightarrow> tandem" where
  "new_Tandem id_arg options =
     \<lparr>tandem_id = (case id_arg of None \<Rightarrow> [] | Some i \<Rightarrow> i),
      static = (case opt_static options of None \<Rightarrow> False | Some b \<Rightarrow> b),
      tandemRequiredButNotSupplied =
        (case opt_tandemRequiredButNotSupplied options of None \<Rightarrow> False | Some b \<Rightarrow> b),
      enabled = (case opt_enabled options of None \<Rightarrow> True | Some b \<Rightarrow> b)\<rparr>"

definition createTandem :: "tandem \<Rightarrow> string \<Rightarrow> tandem_options \<Rightarrow> error + tandem" where
  "createTandem this id_arg options =
     (if \<not> length id_arg > 0 then Inl AssertionError
      else
        let string = (if length (tandem_id this) > 0
                      then tandem_id this @ ''.'' @ id_arg else id_arg);
            options' = extend_options
              \<lparr>opt_static = Some (static this),
               opt_tandemRequiredButNotSupplied = None,
               opt_enabled = Some (enabled this)\<rparr> options
        in Inr (new_Tandem (Some string) options'))"

subsection \<open>The registry: module variables of Tandem.js\<close>

text \<open>
  The module keeps \<^verbatim>\<open>launched\<close>, the queue \<^verbatim>\<open>staticInstances\<close> and the list
  \<^verbatim>\<open>instanceListeners\<close>; \<^verbatim>\<open>phet.chipper.brand\<close> is read from the page (\<open>None\<close> when
  \<^verbatim>\<open>window.phet\<close> or \<^verbatim>\<open>phet.chipper\<close> is missing). Listeners are external
  objects: the model names them by a value of type \<open>'l\<close> and records each call of a
  listener's \<^verbatim>\<open>addInstance\<close> or \<^verbatim>\<open>removeInstance\<close> in \<open>notifications\<close>, in call
  order. A listener does not call back into the registry.
\<close>

datatype ('i, 'l) notification =
  AddInstance 'l string 'i "typeobj option"
| RemoveInstance 'l string 'i

record ('i, 'l) registry =
  brand :: "string option"
  launched :: bool
  staticInstances :: "(tandem \<times> 'i \<times> typeobj option) list"
  instanceListeners :: "'l list"
  notifications :: "('i, 'l) notification list"

definition initial_registry :: "string option \<Rightarrow> ('i, 'l) registry" where
  "initial_registry b =
     \<lparr>brand = b, launched = False, staticInstances = [], instanceListeners = [],
      notifications = []\<rparr>"

definition addInstanceListener :: "'l \<Rightarrow> ('i, 'l) registry \<Rightarrow> ('i, 'l) registry" where
  "addInstanceListener instanceListener st =
     st\<lparr>instanceListeners := instanceListeners st @ [instanceListener]\<rparr>"

text \<open>\<^verbatim>\<open>type && type.typeName\<close>: the type is given and its name is a non-empty string.\<close>

definition type_truthy :: "typeobj option \<Rightarrow> bool" where
  "type_truthy ty = (case ty of None \<Rightarrow> False | Some t \<Rightarrow> typeName t \<noteq> [])"

definition addInstance ::
  "tandem \<Rightarrow> 'i \<Rightarrow> typeobj option \<Rightarrow> ('i, 'l) registry \<Rightarrow> error + ('i, 'l) registry" where
  "addInstance this instance ty st =
     (if brand st = Some ''phet-io'' \<and> enabled this then
        if tandemRequiredButNotSupplied this then Inl AssertionError
        else if \<not> type_truthy ty then Inl AssertionError
        else if static this \<and> \<not> launched st then
          Inr (st\<lparr>staticInstances := staticInstances st @ [(this, instance, ty)]\<rparr>)
        else
          Inr (st\<lparr>notifications := notifications st @
                 map (\<lambda>l. AddInstance l (tandem_id this) instance ty) (instanceListeners st)\<rparr>)
      else Inr st)"

definition removeInstance ::
  "tandem \<Rightarrow> 'i \<Rightarrow> ('i, 'l) registry \<Rightarrow> error + ('i, 'l) registry" where
  "removeInstance this instance st =
     (case brand st of
        None \<Rightarrow> Inl TypeError
      | Some b \<Rightarrow>
          if b = ''phet-io'' \<and> enabled this then
            Inr (st\<lparr>notifications := notifications st @
                   map (\<lambda>l. RemoveInstance l (tandem_id this) instance) (instanceListeners st)\<rparr>)
          else Inr st)"

text \<open>
  The loop of \<^verbatim>\<open>Tandem.launch\<close>: while the queue is not empty, \<^verbatim>\<open>shift()\<close> takes its
  first entry and the entry's tandem adds the instance again. Nothing in the loop itself
  bounds it (with \<^verbatim>\<open>launched\<close> false a static entry would be queued again), so it is a
  partial function: \<open>None\<close> stands for a loop that does not return.
\<close>

partial_function (option) launch_loop ::
  "('i, 'l) registry \<Rightarrow> (error + ('i, 'l) registry) option" where
  "launch_loop st =
     (case staticInstances st of
        [] \<Rightarrow> Some (Inr st)
      | staticInstance # rest \<Rightarrow>
          (case addInstance (fst staticInstance) (fst (snd staticInstance))
                  (snd (snd staticInstance)) (st\<lparr>staticInstances := rest\<rparr>) of
             Inl e \<Rightarrow> Some (Inl e)
           | Inr st' \<Rightarrow> launch_loop st'))"

definition launch :: "('i, 'l) registry \<Rightarrow> (error + ('i, 'l) registry) option" where
  "launch st =
     (if launched st then Some (Inl AssertionError)
      else launch_loop (st\<lparr>launched := True\<rparr>))"

text \<open>A run of \<^verbatim>\<open>addInstance\<close> calls, one per entry, in order; it stops at the first failure.\<close>

fun addInstance_all ::
  "(tandem \<times> 'i \<times> typeobj option) list \<Rightarrow> ('i, 'l) registry \<Rightarrow> error + ('i, 'l) registry" where
  "addInstance_all [] st = Inr st"
| "addInstance_all (e # es) st =
     (case addInstance (fst e) (fst (snd e)) (snd (snd e)) st of
        Inl err \<Rightarrow> Inl err
      | Inr st' \<Rightarrow> addInstance_all es st')"

text \<open>
  Vocabulary of the statements: an entry that \<^verbatim>\<open>addInstance\<close> accepts and, before launch,
  queues (its tandem is static and enabled, it is not the required-but-missing
  placeholder, its type is given), and the calls one entry makes on the listeners.
\<close>

definition queueable :: "tandem \<times> 'i \<times> typeobj option \<Rightarrow> bool" where
  "queueable e =
     (static (fst e) \<and> enabled (fst e) \<and> \<not> tandemRequiredButNotSupplied (fst e)
      \<and> type_truthy (snd (snd e)))"

definition notify_entry :: "'l list \<Rightarrow> tandem \<times> 'i \<times> typeobj option \<Rightarrow> ('i, 'l) notification list" where
  "notify_entry ls e =
     map (\<lambda>l. AddInstance l (tandem_id (fst e)) (fst (snd e)) (snd (snd e))) ls"

section \<open>JavaScript numbers as indices\<close>

text \<open>
  An index is a JavaScript number: the counter of a group (an integer, counted up from
  zero) or the result of \<^verbatim>\<open>parseInt( s, 10 )\<close>, which is an integer or \<^verbatim>\<open>NaN\<close>.
  Integers are unbounded here; the model is exact below \<open>2 ^ 53\<close>, where a double holds
  every integer and prints it in plain decimal.
\<close>

datatype jsnumber = NaN | Num int

definition digitChar :: "nat \<Rightarrow> char" where
  "digitChar d = ''0123456789'' ! (d mod 10)"

fun natToString :: "nat \<Rightarrow> string" where
  "natToString n =
     (if n < 10 then [digitChar n] else natToString (n div 10) @ [digitChar (n mod 10)])"

declare natToString.simps [simp del]

text \<open>String concatenation with a number: \<^verbatim>\<open>'' + index\<close>.\<close>

definition numberToString :: "jsnumber \<Rightarrow> string" where
  "numberToString x =
     (case x of
        NaN \<Rightarrow> ''NaN''
      | Num i \<Rightarrow> if i < 0 then CHR ''-'' # natToString (nat (- i)) else natToString (nat i))"

text \<open>\<^verbatim>\<open>s.split( sep )\<close> with a one-character separator: the pieces between its occurrences.\<close>

fun split_js :: "string \<Rightarrow> char \<Rightarrow> string list" where
  "split_js [] sep = [[]]"
| "split_js (c # cs) sep =
     (if c = sep then [] # split_js cs sep
      else (case split_js cs sep of
              [] \<Rightarrow> [[c]]
            | w # ws \<Rightarrow> (c # w) # ws))"

text \<open>\<^verbatim>\<open>xs[ i ]\<close>: \<^verbatim>\<open>undefined\<close> (\<open>None\<close>) outside the array.\<close>

definition element_at :: "'a list \<Rightarrow> nat \<Rightarrow> 'a option" where
  "element_at xs i = (if i < length xs then Some (xs ! i) else None)"

definition isWhiteSpace :: "char \<Rightarrow> bool" where
  "isWhiteSpace c =
     (c \<in> {CHR '' '', CHR 0x09, CHR 0x0A, CHR 0x0B, CHR 0x0C, CHR 0x0D})"

definition isDigit :: "char \<Rightarrow> bool" where
  "isDigit c = (c \<in> set ''0123456789'')"

definition digitValue :: "char \<Rightarrow> nat" where
  "digitValue c = length (takeWhile (\<lambda>d. d \<noteq> c) ''0123456789'')"

definition digitsToNat :: "string \<Rightarrow> nat" where
  "digitsToNat ds = foldl (\<lambda>acc c. 10 * acc + digitValue c) 0 ds"

text \<open>
  \<^verbatim>\<open>parseInt( x, 10 )\<close>: the argument is turned into a string (\<^verbatim>\<open>undefined\<close> has no
  digits), leading white space and one sign are skipped, and the longest run of decimal
  digits is read; without a digit the result is \<^verbatim>\<open>NaN\<close>.
\<close>

definition parseInt :: "string option \<Rightarrow> jsnumber" where
  "parseInt arg =
     (case arg of
        None \<Rightarrow> NaN
      | Some s \<Rightarrow>
          let s1 = dropWhile isWhiteSpace s;
              negative = (case s1 of [] \<Rightarrow> False | c # _ \<Rightarrow> c = CHR ''-'');
              s2 = (case s1 of [] \<Rightarrow> []
                    | c # r \<Rightarrow> if c = CHR ''-'' \<or> c = CHR ''+'' then r else s1);
              ds = takeWhile isDigit s2
          in if ds = [] then NaN
             else Num (if negative then - int (digitsToNat ds) else int (digitsToNat ds)))"

section \<open>Group (the dynamic group manager)\<close>

text \<open>
  A member is the object the caller's \<^verbatim>\<open>createMember\<close> function returns for a tandem
  and arguments. The model keeps the component name of its tandem, the arguments it was
  created with, and its identity \<open>memberRef\<close>: \<^verbatim>\<open>createMember\<close> is taken to return a
  new object at every call, so every creation draws a fresh reference from \<open>nextRef\<close>.
  The group's emitters are recorded in \<open>emitted\<close>, and the members whose \<^verbatim>\<open>dispose()\<close>
  has run in \<open>disposedMembers\<close>, both in call order. The prototype member of the
  validation mode is not a member of \<^verbatim>\<open>array\<close> and is left out.
\<close>

record 'a member =
  memberName :: string
  memberArgs :: "'a list"
  memberRef :: nat

datatype 'a group_event = MemberCreated "'a member" | MemberDisposed "'a member"

record 'a group =
  prefix :: string
  array :: "'a member list"
  groupElementIndex :: int
  nextRef :: nat
  emitted :: "'a group_event list"
  disposedMembers :: "'a member list"

definition new_Group :: "string \<Rightarrow> 'a group" where
  "new_Group p =
     \<lparr>prefix = p, array = [], groupElementIndex = 0, nextRef = 0, emitted = [],
      disposedMembers = []\<rparr>"

text \<open>
  \<^verbatim>\<open>arrayRemove( array, member )\<close> of the core library: it removes the first element
  that is the given object, and fails its assertion when there is none.
\<close>

fun arrayRemove :: "'a member list \<Rightarrow> 'a member \<Rightarrow> error + 'a member list" where
  "arrayRemove [] m = Inl AssertionError"
| "arrayRemove (x # xs) m =
     (if memberRef x = memberRef m then Inr xs
      else (case arrayRemove xs m of
              Inl e \<Rightarrow> Inl e
            | Inr ys \<Rightarrow> Inr (x # ys)))"

text \<open>\<^verbatim>\<open>member.dispose()\<close> asserts that the member has not been disposed before.\<close>

definition disposeGroupMember :: "'a group \<Rightarrow> 'a member \<Rightarrow> error + 'a group" where
  "disposeGroupMember g m =
     (case arrayRemove (array g) m of
        Inl e \<Rightarrow> Inl e
      | Inr arr \<Rightarrow>
          if memberRef m \<in> set (map memberRef (disposedMembers g)) then Inl AssertionError
          else Inr (g\<lparr>array := arr,
                      emitted := emitted g @ [MemberDisposed m],
                      disposedMembers := disposedMembers g @ [m]\<rparr>))"

lemma arrayRemove_shorter: "arrayRemove xs m = Inr ys \<Longrightarrow> length ys < length xs"
  by (induction xs arbitrary: ys) (auto split: if_splits sum.splits)

lemma disposeGroupMember_shorter:
  "disposeGroupMember g m = Inr g' \<Longrightarrow> length (array g') < length (array g)"
  by (auto simp: disposeGroupMember_def split: sum.splits if_splits dest: arrayRemove_shorter)

function clear_loop :: "'a group \<Rightarrow> error + 'a group" where
  "clear_loop g =
     (if length (array g) > 0 then
        (case disposeGroupMember g (last (array g)) of
           Inl e \<Rightarrow> Inl e
         | Inr g' \<Rightarrow> clear_loop g')
      else Inr g)"
  by pat_completeness auto
termination
  by (relation "measure (\<lambda>g. length (array g))") (auto dest: disposeGroupMember_shorter)

definition clear :: "'a group \<Rightarrow> error + 'a group" where
  "clear g =
     (case clear_loop g of
        Inl e \<Rightarrow> Inl e
      | Inr g' \<Rightarrow> Inr (g'\<lparr>groupElementIndex := 0\<rparr>))"

text \<open>
  \<^verbatim>\<open>createGroupMember( index, argsForCreateFunction )\<close>. \<open>validator\<close> stands for
  \<^verbatim>\<open>validate( groupMember, this.phetioType.parameterType.validator )\<close>, which fails
  on a member that does not match.
\<close>

definition createGroupMember ::
  "('a member \<Rightarrow> bool) \<Rightarrow> 'a group \<Rightarrow> jsnumber \<Rightarrow> 'a list \<Rightarrow> error + ('a member \<times> 'a group)" where
  "createGroupMember validator g index argsForCreateFunction =
     (let componentName = prefix g @ [GROUP_SEPARATOR] @ numberToString index;
          groupMember = \<lparr>memberName = componentName, memberArgs = argsForCreateFunction,
                          memberRef = nextRef g\<rparr>
      in if \<not> validator groupMember then Inl AssertionError
         else Inr (groupMember,
                   g\<lparr>array := array g @ [groupMember],
                     emitted := emitted g @ [MemberCreated groupMember],
                     nextRef := Suc (nextRef g)\<rparr>))"

text \<open>\<^verbatim>\<open>this.groupElementIndex++\<close> is evaluated, and the counter stored, before the call.\<close>

definition createNextMember ::
  "('a member \<Rightarrow> bool) \<Rightarrow> 'a group \<Rightarrow> 'a list \<Rightarrow> error + ('a member \<times> 'a group)" where
  "createNextMember validator g argsForCreateFunction =
     createGroupMember validator (g\<lparr>groupElementIndex := groupElementIndex g + 1\<rparr>)
       (Num (groupElementIndex g)) argsForCreateFunction"

text \<open>
  \<^verbatim>\<open>createCorrespondingGroupMember( phetioObject, ...args )\<close>; \<open>peerName\<close> is
  \<^verbatim>\<open>phetioObject.tandem.name\<close>. \<^verbatim>\<open>===\<close> between the counter and \<^verbatim>\<open>NaN\<close> is false.
\<close>

definition createCorrespondingGroupMember ::
  "('a member \<Rightarrow> bool) \<Rightarrow> 'a group \<Rightarrow> string \<Rightarrow> 'a list \<Rightarrow> error + ('a member \<times> 'a group)" where
  "createCorrespondingGroupMember validator g peerName argsForCreateFunction =
     (let index = parseInt (element_at (split_js peerName GROUP_SEPARATOR) 1);
          g' = (if Num (groupElementIndex g) = index
                then g\<lparr>groupElementIndex := groupElementIndex g + 1\<rparr> else g)
      in createGroupMember validator g' index argsForCreateFunction)"

text \<open>
  The counter update of \<^verbatim>\<open>PhetioGroupIO.addChildInstanceFromComponentName\<close>, the
  sibling that creates a member at the index a state names:
  \<^verbatim>\<open>Math.max( index + 1, group.groupMemberIndex )\<close>.
\<close>

definition addChildInstance_counter :: "int \<Rightarrow> int \<Rightarrow> int" where
  "addChildInstance_counter index groupMemberIndex = max (index + 1) groupMemberIndex"

text \<open>
  Vocabulary of the statements: the members of \<^verbatim>\<open>array\<close> are distinct objects, none
  of them has been disposed, and every reference in use is below the next fresh one.
\<close>

definition live_members :: "'a group \<Rightarrow> bool" where
  "live_members g =
     (distinct (map memberRef (array g))
      \<and> set (map memberRef (array g)) \<inter> set (map memberRef (disposedMembers g)) = {}
      \<and> list_all (\<lambda>m. memberRef m < nextRef g) (array g)
      \<and> list_all (\<lambda>m. memberRef m < nextRef g) (disposedMembers g))"

section \<open>Parametric IO type constructors\<close>

text \<open>
  FunctionIO and PhetioGroupIO each keep a module-level \<^verbatim>\<open>cache\<close> object, keyed by a
  string built from the parameter types' names; ArrayIO keeps none. A type object that a
  constructor creates is a new object: it takes the next free reference. The call
  \<^verbatim>\<open>ObjectIO.validateSubtype\<close> on a new type is outside these sources and is taken to
  pass.
\<close>

record type_state =
  nextTypeRef :: nat
  functionCache :: "string \<rightharpoonup> typeobj"
  groupCache :: "string \<rightharpoonup> typeobj"

text \<open>\<^verbatim>\<open>names.join( sep )\<close>.\<close>

fun join_js :: "string \<Rightarrow> string list \<Rightarrow> string" where
  "join_js sep [] = []"
| "join_js sep [x] = x"
| "join_js sep (x # y # ys) = x @ sep @ join_js sep (y # ys)"

definition create_FunctionIO :: "typeobj \<Rightarrow> typeobj list \<Rightarrow> nat \<Rightarrow> typeobj" where
  "create_FunctionIO returnType functionParameterTypes ref =
     (let parameterTypes = join_js '','' (map typeName functionParameterTypes)
      in TypeObj ref (''FunctionIO('' @ parameterTypes @ '')=>'' @ typeName returnType)
           (functionParameterTypes @ [returnType]))"

definition FunctionIO ::
  "typeobj \<Rightarrow> typeobj list \<Rightarrow> type_state \<Rightarrow> typeobj \<times> type_state" where
  "FunctionIO returnType functionParameterTypes st =
     (let cacheKey = typeName returnType @ ''.'' @
                       join_js '','' (map typeName functionParameterTypes)
      in case functionCache st cacheKey of
           Some cached \<Rightarrow> (cached, st)
         | None \<Rightarrow>
             let created = create_FunctionIO returnType functionParameterTypes (nextTypeRef st)
             in (created,
                 st\<lparr>nextTypeRef := Suc (nextTypeRef st),
                    functionCache := (functionCache st)(cacheKey \<mapsto> created)\<rparr>))"

definition create_PhetioGroupIO :: "typeobj \<Rightarrow> nat \<Rightarrow> typeobj" where
  "create_PhetioGroupIO parameterType ref =
     TypeObj ref (''PhetioGroupIO<'' @ typeName parameterType @ ''>'') [parameterType]"

definition PhetioGroupIO :: "typeobj \<Rightarrow> type_state \<Rightarrow> typeobj \<times> type_state" where
  "PhetioGroupIO parameterType st =
     (case groupCache st (typeName parameterType) of
        Some cached \<Rightarrow> (cached, st)
      | None \<Rightarrow>
          let created = create_PhetioGroupIO parameterType (nextTypeRef st)
          in (created,
              st\<lparr>nextTypeRef := Suc (nextTypeRef st),
                 groupCache := (groupCache st)(typeName parameterType \<mapsto> created)\<rparr>))"

text \<open>
  \<^verbatim>\<open>ArrayIO( elementType )\<close> declares a new constructor \<^verbatim>\<open>ArrayIOImpl\<close> at every call
  and returns it through \<^verbatim>\<open>phetioInherit( ObjectIO, 'ArrayIO', ArrayIOImpl, ... )\<close>,
  which names the type \<^verbatim>\<open>ArrayIO\<close> whatever the element type is.
\<close>

definition ArrayIO :: "typeobj \<Rightarrow> type_state \<Rightarrow> typeobj \<times> type_state" where
  "ArrayIO elementType st =
     (TypeObj (nextTypeRef st) ''ArrayIO'' [elementType],
      st\<lparr>nextTypeRef := Suc (nextTypeRef st)\<rparr>)"

definition initial_types :: "nat \<Rightarrow> type_state" where
  "initial_types firstFree =
     \<lparr>nextTypeRef = firstFree, functionCache = Map.empty, groupCache = Map.empty\<rparr>"

section \<open>PhetioObject: the event stack\<close>

text \<open>
  The page and build flags that \<^verbatim>\<open>phetioStartEvent\<close> and \<^verbatim>\<open>isPhetioInstrumented\<close>
  read: \<^verbatim>\<open>Tandem.PHET_IO_ENABLED\<close>, whether \<^verbatim>\<open>window.phet.phetio\<close> exists, and the
  query parameter \<^verbatim>\<open>phetioEmitHighFrequencyEvents\<close>.
\<close>

record phetio_env =
  PHET_IO_ENABLED :: bool
  phetioGlobal :: bool
  phetioEmitHighFrequencyEvents :: bool

text \<open>
  The fields of a PhetioObject that the event functions use. \<open>tandemSupplied\<close> is
  \<open>None\<close> while \<^verbatim>\<open>this.tandem\<close> is null, and otherwise the tandem's \<^verbatim>\<open>supplied\<close>
  flag. \<^verbatim>\<open>phetioMessageStack\<close> is a JavaScript array used as a stack: \<^verbatim>\<open>push\<close> adds
  at the end and \<^verbatim>\<open>pop\<close> takes from the end.
\<close>

record phetioObject =
  phetioObjectInitialized :: bool
  tandemSupplied :: "bool option"
  phetioHighFrequency :: bool
  phetioMessageStack :: "int list"

definition SKIPPING_HIGH_FREQUENCY_MESSAGE :: int where
  "SKIPPING_HIGH_FREQUENCY_MESSAGE = - 1"

definition isPhetioInstrumented :: "phetio_env \<Rightarrow> phetioObject \<Rightarrow> bool" where
  "isPhetioInstrumented env obj =
     (case tandemSupplied obj of None \<Rightarrow> False | Some supplied \<Rightarrow> supplied \<and> PHET_IO_ENABLED env)"

text \<open>\<^verbatim>\<open>array.pop()\<close>: the last element and the rest, \<^verbatim>\<open>undefined\<close> (\<open>None\<close>) on an empty array.\<close>

definition pop :: "'a list \<Rightarrow> 'a option \<times> 'a list" where
  "pop xs = (if xs = [] then (None, []) else (Some (last xs), butlast xs))"

text \<open>The value handed to the sink's \<^verbatim>\<open>end\<close>: a number, or \<^verbatim>\<open>undefined\<close>.\<close>

datatype frame = Undefined | SequenceId int

text \<open>
  Modelled from the spec: the sink's \<^verbatim>\<open>end\<close>. The module \<^verbatim>\<open>PHET_IO/dataStream\<close> is
  not among the sources. The specification gives the sink the contract
  \<^verbatim>\<open>end(sequenceId)\<close>, which closes that sequence, and makes ending with an empty stack
  a fatal assertion; at the stack's declaration PhetioObject says that the stack exists
  so that dataStream can check that ends match starts. So the sink's answer to a
  sequence id is a parameter (\<open>close\<close>, which may itself fail), and its answer to a
  frame that is no sequence id is the failed assertion.
\<close>

definition dataStream_end :: "('s \<Rightarrow> int \<Rightarrow> error + 's) \<Rightarrow> 's \<Rightarrow> frame \<Rightarrow> error + 's" where
  "dataStream_end close s f =
     (case f of Undefined \<Rightarrow> Inl AssertionError | SequenceId i \<Rightarrow> close s i)"

text \<open>
  The data of an event: absent, an object, or a function that is called only when the
  event is sent.
\<close>

datatype 'd event_data = NoData | Data 'd | Deferred "unit \<Rightarrow> 'd"

definition force_data :: "'d event_data \<Rightarrow> 'd option" where
  "force_data d = (case d of NoData \<Rightarrow> None | Data v \<Rightarrow> Some v | Deferred f \<Rightarrow> Some (f ()))"

text \<open>
  \<^verbatim>\<open>phetioStartEvent( event, data )\<close>; \<open>start\<close> is the sink's
  \<^verbatim>\<open>dataStream.start\<close>, which returns the sequence id.
\<close>

definition phetioStartEvent ::
  "phetio_env \<Rightarrow> ('s \<Rightarrow> string \<Rightarrow> 'd option \<Rightarrow> error + (int \<times> 's)) \<Rightarrow>
   phetioObject \<Rightarrow> string \<Rightarrow> 'd event_data \<Rightarrow> 's \<Rightarrow> error + (phetioObject \<times> 's)" where
  "phetioStartEvent env start obj event d s =
     (if \<not> phetioObjectInitialized obj then Inl AssertionError
      else if phetioGlobal env \<and> \<not> phetioEmitHighFrequencyEvents env \<and> phetioHighFrequency obj
      then Inr (obj\<lparr>phetioMessageStack :=
                     phetioMessageStack obj @ [SKIPPING_HIGH_FREQUENCY_MESSAGE]\<rparr>, s)
      else if isPhetioInstrumented env obj then
        (case start s event (force_data d) of
           Inl e \<Rightarrow> Inl e
         | Inr (sequenceId, s') \<Rightarrow>
             Inr (obj\<lparr>phetioMessageStack := phetioMessageStack obj @ [sequenceId]\<rparr>, s'))
      else Inr (obj, s))"

definition phetioEndEvent ::
  "phetio_env \<Rightarrow> ('s \<Rightarrow> int \<Rightarrow> error + 's) \<Rightarrow> phetioObject \<Rightarrow> 's \<Rightarrow>
   error + (phetioObject \<times> 's)" where
  "phetioEndEvent env close obj s =
     (let popped = pop (phetioMessageStack obj);
          topMessageIndex = fst popped;
          obj' = obj\<lparr>phetioMessageStack := snd popped\<rparr>
      in if topMessageIndex = Some SKIPPING_HIGH_FREQUENCY_MESSAGE then Inr (obj', s)
         else if isPhetioInstrumented env obj' then
           (case dataStream_end close s
                   (case topMessageIndex of None \<Rightarrow> Undefined | Some i \<Rightarrow> SequenceId i) of
              Inl e \<Rightarrow> Inl e
            | Inr s' \<Rightarrow> Inr (obj', s'))
         else Inr (obj', s))"

section \<open>State objects: NullableIO and ArrayIO\<close>

text \<open>
  The values that pass through \<^verbatim>\<open>toStateObject\<close> and \<^verbatim>\<open>fromStateObject\<close>. JavaScript
  is untyped: a parameter type's \<^verbatim>\<open>toStateObject\<close> may return any of them, \<^verbatim>\<open>null\<close>
  included.
\<close>

datatype jsvalue =
  JSNull | JSUndefined | JSNum int | JSStr string | JSArr "jsvalue list"

text \<open>The two static serialization functions of an IO type; either may throw.\<close>

record iotype =
  toStateObject :: "jsvalue \<Rightarrow> error + jsvalue"
  fromStateObject :: "jsvalue \<Rightarrow> error + jsvalue"

definition NullableIO_toStateObject :: "iotype \<Rightarrow> jsvalue \<Rightarrow> error + jsvalue" where
  "NullableIO_toStateObject parameterType instance =
     (if instance = JSNull then Inr JSNull
      else toStateObject parameterType instance)"

definition NullableIO_fromStateObject :: "iotype \<Rightarrow> jsvalue \<Rightarrow> error + jsvalue" where
  "NullableIO_fromStateObject parameterType stateObject =
     (if stateObject = JSNull then Inr JSNull
      else fromStateObject parameterType stateObject)"

definition NullableIO :: "iotype \<Rightarrow> iotype" where
  "NullableIO parameterType =
     \<lparr>toStateObject = NullableIO_toStateObject parameterType,
      fromStateObject = NullableIO_fromStateObject parameterType\<rparr>"

text \<open>
  The loop \<^verbatim>\<open>for ( i = 0; i < xs.length; i++ ) { out.push( f( xs[ i ] ) ); }\<close>: the
  results in order, or the first failure.
\<close>

fun push_each :: "('a \<Rightarrow> error + 'b) \<Rightarrow> 'a list \<Rightarrow> error + 'b list" where
  "push_each f [] = Inr []"
| "push_each f (x # xs) =
     (case f x of
        Inl e \<Rightarrow> Inl e
      | Inr y \<Rightarrow> (case push_each f xs of
                    Inl e \<Rightarrow> Inl e
                  | Inr ys \<Rightarrow> Inr (y # ys)))"

text \<open>\<^verbatim>\<open>ArrayIO.toStateObject\<close> asserts that its argument is an array.\<close>

definition ArrayIO_toStateObject :: "iotype \<Rightarrow> jsvalue \<Rightarrow> error + jsvalue" where
  "ArrayIO_toStateObject elementType array_arg =
     (case array_arg of
        JSArr xs \<Rightarrow>
          (case push_each (toStateObject elementType) xs of
             Inl e \<Rightarrow> Inl e
           | Inr json \<Rightarrow> Inr (JSArr json))
      | _ \<Rightarrow> Inl AssertionError)"

text \<open>
  \<^verbatim>\<open>ArrayIO.fromStateObject\<close> asserts nothing and reads \<^verbatim>\<open>stateObject.length\<close> and
  \<^verbatim>\<open>stateObject[ i ]\<close>: of a string these are its length and its characters, a number
  has no length (the loop does not run), and \<^verbatim>\<open>null\<close> and \<^verbatim>\<open>undefined\<close> have no
  properties.
\<close>

definition ArrayIO_fromStateObject :: "iotype \<Rightarrow> jsvalue \<Rightarrow> error + jsvalue" where
  "ArrayIO_fromStateObject elementType stateObject =
     (case stateObject of
        JSArr xs \<Rightarrow>
          (case push_each (fromStateObject elementType) xs of
             Inl e \<Rightarrow> Inl e
           | Inr arr \<Rightarrow> Inr (JSArr arr))
      | JSStr s \<Rightarrow>
          (case push_each (fromStateObject elementType) (map (\<lambda>c. JSStr [c]) s) of
             Inl e \<Rightarrow> Inl e
           | Inr arr \<Rightarrow> Inr (JSArr arr))
      | JSNum n \<Rightarrow> Inr (JSArr [])
      | JSNull \<Rightarrow> Inl TypeError
      | JSUndefined \<Rightarrow> Inl TypeError)"

definition ArrayIO_serialization :: "iotype \<Rightarrow> iotype" where
  "ArrayIO_serialization elementType =
     \<lparr>toStateObject = ArrayIO_toStateObject elementType,
      fromStateObject = ArrayIO_fromStateObject elementType\<rparr>"

text \<open>
  Vocabulary of the statements: a type round-trips on the values \<open>D\<close> when
  \<^verbatim>\<open>fromStateObject( toStateObject( x ) )\<close> returns \<open>x\<close> for each of them.
\<close>

definition round_trips :: "iotype \<Rightarrow> (jsvalue \<Rightarrow> bool) \<Rightarrow> bool" where
  "round_trips T D =
     (\<forall>x. D x \<longrightarrow> (\<exists>s. toStateObject T x = Inr s \<and> fromStateObject T s = Inr x))"

text \<open>
  A parameter type for the counterexample of claim C8: it writes the number 0 as
  \<^verbatim>\<open>null\<close> and reads \<^verbatim>\<open>null\<close> back as 0; every other number is written as it is.
\<close>

definition zero_as_null :: iotype where
  "zero_as_null =
     \<lparr>toStateObject = (\<lambda>x. if x = JSNum 0 then Inr JSNull else Inr x),
      fromStateObject = (\<lambda>s. if s = JSNull then Inr (JSNum 0) else Inr s)\<rparr>"

definition is_number :: "jsvalue \<Rightarrow> bool" where
  "is_number v = (case v of JSNum n \<Rightarrow> True | _ \<Rightarrow> False)"

definition identity_type :: iotype where
  "identity_type = \<lparr>toStateObject = Inr, fromStateObject = Inr\<rparr>"


section \<open>Properties of the identifier utilities\<close>

lemma lastIndexOf_append_free:
  assumes "c \<notin> set t"
  shows "lastIndexOf (s @ c # t) c = int (length s)"
proof -
  have "takeWhile (\<lambda>x. x \<noteq> c) (rev t @ c # rev s) = rev t"
    using assms by (subst takeWhile_append2) auto
  then show ?thesis by (simp add: lastIndexOf_def)
qed

lemma lastIndexOf_absent: "c \<notin> set s \<Longrightarrow> lastIndexOf s c = - 1"
  by (simp add: lastIndexOf_def)

lemma substring_prefix: "substring (s @ t) 0 (int (length s)) = s"
  by (simp add: substring_def Let_def)

lemma substring_suffix:
  "substring (s @ c # t) (int (length s) + 1) (int (length (s @ c # t))) = t"
  by (simp add: substring_def Let_def nat_add_distrib)

lemma indexOf_nonneg_iff: "indexOf s c \<ge> 0 \<longleftrightarrow> c \<in> set s"
  by (simp add: indexOf_def)

lemma indexOf_minus_one_iff: "indexOf s c = - 1 \<longleftrightarrow> c \<notin> set s"
  by (simp add: indexOf_def)

lemma append_phetioID_bad:
  "\<exists>c \<in> set cs. SEPARATOR \<in> set c \<Longrightarrow> append_phetioID p cs = Inl AssertionError"
  by (induction cs arbitrary: p) (auto simp: indexOf_minus_one_iff)

text \<open>
  Claim C1. For every parent identifier \<open>p\<close> and every component name \<open>c\<close> without the
  separator, appending \<open>c\<close> to \<open>p\<close> succeeds, and \<open>getParentID\<close> and \<open>getComponentName\<close>
  of the result give back \<open>p\<close> and \<open>c\<close>. \<open>append\<close> fails its assertion when one of the
  supplied component names contains the separator, and \<open>getParentID\<close> fails its assertion
  on an identifier without a separator.
\<close>

theorem append_parent_component_inverse:
  "(SEPARATOR \<notin> set c \<longrightarrow>
      (\<exists>q. append_phetioID p [c] = Inr q \<and> getParentID q = Inr p \<and> getComponentName q = Inr c))
   \<and> ((\<exists>c' \<in> set cs. SEPARATOR \<in> set c') \<longrightarrow> append_phetioID p cs = Inl AssertionError)
   \<and> (SEPARATOR \<notin> set i \<longrightarrow> getParentID i = Inl AssertionError)"
proof (intro conjI impI)
  assume free: "SEPARATOR \<notin> set c"
  let ?q = "p @ SEPARATOR # c"
  have idx: "lastIndexOf ?q SEPARATOR = int (length p)"
    using free by (rule lastIndexOf_append_free)
  have app: "append_phetioID p [c] = Inr ?q"
    using free by (simp add: indexOf_minus_one_iff)
  have par: "getParentID ?q = Inr p"
    unfolding getParentID_def Let_def idx using substring_prefix [of p "SEPARATOR # c"]
    by simp
  have comp: "getComponentName ?q = Inr c"
    unfolding getComponentName_def Let_def idx using substring_suffix [of p SEPARATOR c]
    by simp
  show "\<exists>q. append_phetioID p [c] = Inr q \<and> getParentID q = Inr p \<and> getComponentName q = Inr c"
    using app par comp by blast
next
  assume "\<exists>c' \<in> set cs. SEPARATOR \<in> set c'"
  then show "append_phetioID p cs = Inl AssertionError"
    by (rule append_phetioID_bad)
next
  assume "SEPARATOR \<notin> set i"
  then show "getParentID i = Inl AssertionError"
    by (simp add: getParentID_def lastIndexOf_absent)
qed

theorem append_parent_component_inverse_witness:
  "append_phetioID ''myScreen.myControlPanel'' [''myComboBox''] = Inr ''myScreen.myControlPanel.myComboBox''
   \<and> getParentID ''myScreen.myControlPanel.myComboBox'' = Inr ''myScreen.myControlPanel''
   \<and> getComponentName ''myScreen.myControlPanel.myComboBox'' = Inr ''myComboBox''
   \<and> append_phetioID ''a'' [''b'', ''c.d''] = Inl AssertionError
   \<and> getParentID ''sim'' = Inl AssertionError"
  using append_parent_component_inverse
    [of "''myComboBox''" "''myScreen.myControlPanel''" "[''b'', ''c.d'']" "''sim''"]
  by (auto simp: SEPARATOR_def indexOf_def)

text \<open>
  Claim C9. \<open>isDynamicElement\<close> holds exactly of the identifiers that contain the
  group-index separator somewhere; it holds of \<^verbatim>\<open>sim.screen.electron_3\<close> and not of
  \<^verbatim>\<open>sim.screen.model\<close>.
\<close>

theorem isDynamicElement_iff_contains_group_separator:
  "isDynamicElement phetioID = (GROUP_SEPARATOR \<in> set phetioID)
   \<and> isDynamicElement ''sim.screen.electron_3''
   \<and> \<not> isDynamicElement ''sim.screen.model''"
  by (simp add: isDynamicElement_def indexOf_nonneg_iff GROUP_SEPARATOR_def)

section \<open>Properties of the registry\<close>

text \<open>
  Claim C10. \<open>createTandem\<close> with a non-empty child name gives a child whose static and
  enabled flags are the parent's unless the options carry the key, and under a parent
  with the empty identifier the child's identifier is the child name alone.
\<close>

theorem createTandem_child_flags_and_id:
  "id_arg \<noteq> [] \<longrightarrow>
     (\<exists>child. createTandem this id_arg options = Inr child
        \<and> static child = (case opt_static options of None \<Rightarrow> static this | Some b \<Rightarrow> b)
        \<and> enabled child = (case opt_enabled options of None \<Rightarrow> enabled this | Some b \<Rightarrow> b)
        \<and> (tandem_id this = [] \<longrightarrow> tandem_id child = id_arg)
        \<and> (tandem_id this \<noteq> [] \<longrightarrow> tandem_id child = tandem_id this @ ''.'' @ id_arg))"
  by (simp add: createTandem_def new_Tandem_def extend_options_def override_def Let_def
      split: option.splits)

theorem createTandem_child_flags_and_id_witness:
  "createTandem (new_Tandem (Some []) (no_options\<lparr>opt_static := Some True, opt_enabled := Some False\<rparr>))
      ''screen'' no_options
    = Inr \<lparr>tandem_id = ''screen'', static = True, tandemRequiredButNotSupplied = False,
           enabled = False\<rparr>
   \<and> createTandem (new_Tandem (Some ''sim'') no_options) ''screen''
        (no_options\<lparr>opt_static := Some True\<rparr>)
    = Inr \<lparr>tandem_id = ''sim.screen'', static = True, tandemRequiredButNotSupplied = False,
           enabled = True\<rparr>"
  using createTandem_child_flags_and_id
    [of "''screen''" "new_Tandem (Some []) (no_options\<lparr>opt_static := Some True, opt_enabled := Some False\<rparr>)" no_options]
    createTandem_child_flags_and_id
    [of "''screen''" "new_Tandem (Some ''sim'') no_options" "no_options\<lparr>opt_static := Some True\<rparr>"]
  by (auto simp: createTandem_def new_Tandem_def extend_options_def override_def no_options_def)

lemma addInstance_queues:
  assumes "brand st = Some ''phet-io''" "\<not> launched st"
    and "static t" "enabled t" "\<not> tandemRequiredButNotSupplied t" "type_truthy ty"
  shows "addInstance t i ty st = Inr (st\<lparr>staticInstances := staticInstances st @ [(t, i, ty)]\<rparr>)"
  using assms by (simp add: addInstance_def)

lemma addInstance_notifies:
  assumes "brand st = Some ''phet-io''" "launched st"
    and "enabled t" "\<not> tandemRequiredButNotSupplied t" "type_truthy ty"
  shows "addInstance t i ty st =
           Inr (st\<lparr>notifications := notifications st @
                  map (\<lambda>l. AddInstance l (tandem_id t) i ty) (instanceListeners st)\<rparr>)"
  using assms by (simp add: addInstance_def)

lemma addInstance_all_queues:
  assumes "brand st = Some ''phet-io''" "\<not> launched st" "list_all queueable es"
  shows "addInstance_all es st = Inr (st\<lparr>staticInstances := staticInstances st @ es\<rparr>)"
  using assms
proof (induction es arbitrary: st)
  case Nil
  then show ?case by simp
next
  case (Cons e es)
  let ?st' = "st\<lparr>staticInstances := staticInstances st @ [e]\<rparr>"
  have step: "addInstance (fst e) (fst (snd e)) (snd (snd e)) st = Inr ?st'"
    using Cons.prems addInstance_queues [of st "fst e" "snd (snd e)" "fst (snd e)"]
    by (simp add: queueable_def)
  have "addInstance_all es ?st' = Inr (?st'\<lparr>staticInstances := staticInstances ?st' @ es\<rparr>)"
    using Cons.prems by (intro Cons.IH) simp_all
  then show ?case using step by simp
qed

lemma launch_loop_flushes:
  assumes "brand st = Some ''phet-io''" "launched st" "staticInstances st = q"
    and "list_all queueable q"
  shows "launch_loop st =
           Some (Inr (st\<lparr>staticInstances := [],
                        notifications := notifications st @
                          concat (map (notify_entry (instanceListeners st)) q)\<rparr>))"
  using assms
proof (induction q arbitrary: st)
  case Nil
  then show ?case by (subst launch_loop.simps) simp
next
  case (Cons e q)
  let ?st' = "st\<lparr>staticInstances := q,
                 notifications := notifications st @ notify_entry (instanceListeners st) e\<rparr>"
  have step: "addInstance (fst e) (fst (snd e)) (snd (snd e)) (st\<lparr>staticInstances := q\<rparr>) = Inr ?st'"
    using Cons.prems
      addInstance_notifies [of "st\<lparr>staticInstances := q\<rparr>" "fst e" "snd (snd e)" "fst (snd e)"]
    by (simp add: queueable_def notify_entry_def)
  have rest: "launch_loop ?st' =
      Some (Inr (?st'\<lparr>staticInstances := [],
                       notifications := notifications ?st' @
                         concat (map (notify_entry (instanceListeners ?st')) q)\<rparr>))"
    using Cons.prems by (intro Cons.IH) simp_all
  have "launch_loop st = launch_loop ?st'"
    using Cons.prems(3) step by (subst launch_loop.simps) simp
  then show ?case using rest by simp
qed

text \<open>
  Claim C3. In a registry that has not launched and whose queue is empty, adding the
  static entries \<open>es\<close> queues exactly them, in order, and notifies nobody. Launch then
  returns, has notified the listeners of every entry in queue order (each entry reaches
  every listener, in listener order), has emptied the queue and has set \<^verbatim>\<open>launched\<close>.
  A second launch fails the assertion, and from then on \<open>addInstance\<close> on a static entry
  notifies the listeners at once and leaves the queue empty.
\<close>

theorem launch_flushes_static_entries_in_order:
  assumes "brand st = Some ''phet-io''" and "\<not> launched st" and "staticInstances st = []"
    and "list_all queueable es"
  shows "\<exists>st1 st2.
           addInstance_all es st = Inr st1
         \<and> staticInstances st1 = es
         \<and> notifications st1 = notifications st
         \<and> launch st1 = Some (Inr st2)
         \<and> notifications st2 =
             notifications st @ concat (map (notify_entry (instanceListeners st)) es)
         \<and> staticInstances st2 = []
         \<and> launched st2
         \<and> launch st2 = Some (Inl AssertionError)
         \<and> (\<forall>e. queueable e \<longrightarrow>
               addInstance (fst e) (fst (snd e)) (snd (snd e)) st2 =
                 Inr (st2\<lparr>notifications :=
                        notifications st2 @ notify_entry (instanceListeners st2) e\<rparr>))"
proof -
  let ?st1 = "st\<lparr>staticInstances := es\<rparr>"
  let ?st2 = "?st1\<lparr>launched := True, staticInstances := [],
                    notifications := notifications st @
                      concat (map (notify_entry (instanceListeners st)) es)\<rparr>"
  have queued: "addInstance_all es st = Inr ?st1"
    using assms addInstance_all_queues [of st es] by simp
  have "launch_loop (?st1\<lparr>launched := True\<rparr>) = Some (Inr ?st2)"
    using assms launch_loop_flushes [of "?st1\<lparr>launched := True\<rparr>" es] by simp
  then have flushed: "launch ?st1 = Some (Inr ?st2)"
    using assms(2) by (simp add: launch_def)
  have again: "launch ?st2 = Some (Inl AssertionError)"
    by (simp add: launch_def)
  have direct: "addInstance (fst e) (fst (snd e)) (snd (snd e)) ?st2 =
      Inr (?st2\<lparr>notifications := notifications ?st2 @ notify_entry (instanceListeners ?st2) e\<rparr>)"
    if "queueable e" for e
    using that assms(1)
      addInstance_notifies [of ?st2 "fst e" "snd (snd e)" "fst (snd e)"]
    by (simp add: queueable_def notify_entry_def)
  show ?thesis
    apply (rule exI [of _ ?st1])
    apply (rule exI [of _ ?st2])
    using queued flushed again direct by simp
qed

theorem launch_flushes_static_entries_in_order_witness:
  "\<exists>st1 st2.
      addInstance_all
        [(new_Tandem (Some ''sim.a'') (no_options\<lparr>opt_static := Some True\<rparr>), 10::nat,
          Some (TypeObj 0 ''TString'' [])),
         (new_Tandem (Some ''sim.b'') (no_options\<lparr>opt_static := Some True\<rparr>), 20,
          Some (TypeObj 0 ''TString'' [])),
         (new_Tandem (Some ''sim.c'') (no_options\<lparr>opt_static := Some True\<rparr>), 30,
          Some (TypeObj 0 ''TString'' []))]
        (addInstanceListener (2::nat) (addInstanceListener 1 (initial_registry (Some ''phet-io''))))
        = Inr st1
    \<and> map (fst \<circ> snd) (staticInstances st1) = [10, 20, 30]
    \<and> notifications st1 = []
    \<and> launch st1 = Some (Inr st2)
    \<and> notifications st2 =
        [AddInstance 1 ''sim.a'' 10 (Some (TypeObj 0 ''TString'' [])),
         AddInstance 2 ''sim.a'' 10 (Some (TypeObj 0 ''TString'' [])),
         AddInstance 1 ''sim.b'' 20 (Some (TypeObj 0 ''TString'' [])),
         AddInstance 2 ''sim.b'' 20 (Some (TypeObj 0 ''TString'' [])),
         AddInstance 1 ''sim.c'' 30 (Some (TypeObj 0 ''TString'' [])),
         AddInstance 2 ''sim.c'' 30 (Some (TypeObj 0 ''TString'' []))]
    \<and> staticInstances st2 = []
    \<and> launch st2 = Some (Inl AssertionError)"
  using launch_flushes_static_entries_in_order
    [of "addInstanceListener (2::nat) (addInstanceListener 1 (initial_registry (Some ''phet-io'')))"
        "[(new_Tandem (Some ''sim.a'') (no_options\<lparr>opt_static := Some True\<rparr>), 10::nat,
          Some (TypeObj 0 ''TString'' [])),
         (new_Tandem (Some ''sim.b'') (no_options\<lparr>opt_static := Some True\<rparr>), 20,
          Some (TypeObj 0 ''TString'' [])),
         (new_Tandem (Some ''sim.c'') (no_options\<lparr>opt_static := Some True\<rparr>), 30,
          Some (TypeObj 0 ''TString'' []))]"]
  by (auto simp: addInstanceListener_def initial_registry_def queueable_def notify_entry_def
      new_Tandem_def no_options_def type_truthy_def)

text \<open>
  In a registry to which nothing was ever added, \<open>removeInstance\<close> returns normally:
  with one listener it calls that listener's \<^verbatim>\<open>removeInstance\<close>, and without listeners
  it changes nothing. No assertion fails.
\<close>

theorem removeInstance_never_added_counterexample:
  "removeInstance (new_Tandem (Some ''sim.neverAdded'') no_options) (7::nat)
       (addInstanceListener (1::nat) (initial_registry (Some ''phet-io'')))
     = Inr ((addInstanceListener (1::nat) (initial_registry (Some ''phet-io'')))
              \<lparr>notifications := [RemoveInstance 1 ''sim.neverAdded'' 7]\<rparr>)
   \<and> removeInstance (new_Tandem (Some ''sim.neverAdded'') no_options) (7::nat)
       (initial_registry (Some ''phet-io'') :: (nat, nat) registry)
     = Inr (initial_registry (Some ''phet-io''))"
  by (simp add: removeInstance_def new_Tandem_def no_options_def addInstanceListener_def
      initial_registry_def)

text \<open>
  Claim C7, as the code has it. \<open>removeInstance\<close> keeps no record of what was added and
  asserts nothing: with the phet-io brand and an enabled tandem it calls every listener's
  \<^verbatim>\<open>removeInstance\<close>, in listener order, for any instance; in every other brand, or for a
  disabled tandem, it does nothing. It fails only with a \<^verbatim>\<open>TypeError\<close>, when
  \<^verbatim>\<open>phet.chipper\<close> is missing.
\<close>

theorem removeInstance_forwards_without_assertion:
  "removeInstance this instance st \<noteq> Inl AssertionError
   \<and> (brand st = Some ''phet-io'' \<and> enabled this \<longrightarrow>
        removeInstance this instance st =
          Inr (st\<lparr>notifications := notifications st @
                 map (\<lambda>l. RemoveInstance l (tandem_id this) instance) (instanceListeners st)\<rparr>))
   \<and> ((\<exists>b. brand st = Some b \<and> \<not> (b = ''phet-io'' \<and> enabled this)) \<longrightarrow>
        removeInstance this instance st = Inr st)
   \<and> (brand st = None \<longrightarrow> removeInstance this instance st = Inl TypeError)"
  by (auto simp: removeInstance_def split: option.splits)

theorem removeInstance_forwards_without_assertion_witness:
  "removeInstance (new_Tandem (Some ''sim.x'') no_options) (7::nat)
       (addInstanceListener (1::nat) (initial_registry (Some ''phet-io'')))
     \<noteq> Inl AssertionError
   \<and> removeInstance (new_Tandem (Some ''sim.x'') no_options) (7::nat)
       (addInstanceListener (1::nat) (initial_registry (Some ''phet-io'')))
     = Inr ((addInstanceListener (1::nat) (initial_registry (Some ''phet-io'')))
              \<lparr>notifications := [RemoveInstance 1 ''sim.x'' 7]\<rparr>)
   \<and> removeInstance (new_Tandem (Some ''sim.x'') no_options) (7::nat)
       (addInstanceListener (1::nat) (initial_registry (Some ''phet'')))
     = Inr (addInstanceListener (1::nat) (initial_registry (Some ''phet'')))
   \<and> removeInstance (new_Tandem (Some ''sim.x'') no_options) (7::nat)
       (addInstanceListener (1::nat) (initial_registry None))
     = Inl TypeError"
  using removeInstance_forwards_without_assertion
      [of "new_Tandem (Some ''sim.x'') no_options" "7::nat"
          "addInstanceListener (1::nat) (initial_registry (Some ''phet-io''))"]
    removeInstance_forwards_without_assertion
      [of "new_Tandem (Some ''sim.x'') no_options" "7::nat"
          "addInstanceListener (1::nat) (initial_registry (Some ''phet''))"]
    removeInstance_forwards_without_assertion
      [of "new_Tandem (Some ''sim.x'') no_options" "7::nat"
          "addInstanceListener (1::nat) (initial_registry None)"]
  by (simp add: new_Tandem_def no_options_def addInstanceListener_def initial_registry_def)


section \<open>Properties of the group\<close>

lemma live_members_new_Group: "live_members (new_Group p)"
  by (simp add: live_members_def new_Group_def)

lemma arrayRemove_last:
  "memberRef m \<notin> set (map memberRef xs) \<Longrightarrow> arrayRemove (xs @ [m]) m = Inr xs"
  by (induction xs) auto

lemma disposeGroupMember_last:
  assumes "array g = xs @ [m]"
    and "memberRef m \<notin> set (map memberRef xs)"
    and "memberRef m \<notin> set (map memberRef (disposedMembers g))"
  shows "disposeGroupMember g (last (array g)) =
           Inr (g\<lparr>array := xs,
                  emitted := emitted g @ [MemberDisposed m],
                  disposedMembers := disposedMembers g @ [m]\<rparr>)"
proof -
  have "arrayRemove (array g) m = Inr xs"
    using assms(1,2) arrayRemove_last [of m xs] by simp
  then show ?thesis
    using assms(1,3) by (simp add: disposeGroupMember_def)
qed

lemma clear_loop_reverse:
  assumes "array g = xs"
    and "distinct (map memberRef xs)"
    and "set (map memberRef xs) \<inter> set (map memberRef (disposedMembers g)) = {}"
  shows "clear_loop g =
           Inr (g\<lparr>array := [],
                  emitted := emitted g @ map MemberDisposed (rev xs),
                  disposedMembers := disposedMembers g @ rev xs\<rparr>)"
  using assms
proof (induction xs arbitrary: g rule: rev_induct)
  case Nil
  then show ?case by simp
next
  case (snoc m xs)
  let ?g' = "g\<lparr>array := xs,
                emitted := emitted g @ [MemberDisposed m],
                disposedMembers := disposedMembers g @ [m]\<rparr>"
  have fresh: "memberRef m \<notin> set (map memberRef xs)"
    using snoc.prems(2) by simp
  have undisposed: "memberRef m \<notin> set (map memberRef (disposedMembers g))"
    using snoc.prems(3) by auto
  have step: "disposeGroupMember g (last (array g)) = Inr ?g'"
    using snoc.prems(1) fresh undisposed by (rule disposeGroupMember_last)
  have disjoint: "set (map memberRef xs) \<inter> set (map memberRef (disposedMembers ?g')) = {}"
    using snoc.prems(3) fresh by auto
  have rest: "clear_loop ?g' =
      Inr (?g'\<lparr>array := [],
                 emitted := emitted ?g' @ map MemberDisposed (rev xs),
                 disposedMembers := disposedMembers ?g' @ rev xs\<rparr>)"
    using snoc.prems(2) disjoint by (intro snoc.IH) simp_all
  have "clear_loop g = clear_loop ?g'"
    using snoc.prems(1) step by (subst clear_loop.simps) simp
  then show ?case using rest by simp
qed

lemma createGroupMember_result:
  assumes "validator \<lparr>memberName = prefix g @ [GROUP_SEPARATOR] @ numberToString index,
                      memberArgs = args, memberRef = nextRef g\<rparr>"
  shows "createGroupMember validator g index args =
           Inr (\<lparr>memberName = prefix g @ [GROUP_SEPARATOR] @ numberToString index,
                  memberArgs = args, memberRef = nextRef g\<rparr>,
                g\<lparr>array := array g @
                       [\<lparr>memberName = prefix g @ [GROUP_SEPARATOR] @ numberToString index,
                         memberArgs = args, memberRef = nextRef g\<rparr>],
                  emitted := emitted g @
                       [MemberCreated
                         \<lparr>memberName = prefix g @ [GROUP_SEPARATOR] @ numberToString index,
                          memberArgs = args, memberRef = nextRef g\<rparr>],
                  nextRef := Suc (nextRef g)\<rparr>)"
  using assms by (simp add: createGroupMember_def Let_def)

lemma live_members_created:
  assumes "live_members g"
    and "array g' = array g @ [m]" and "memberRef m = nextRef g"
    and "nextRef g' = Suc (nextRef g)" and "disposedMembers g' = disposedMembers g"
  shows "live_members g'"
proof -
  have bound: "\<And>x. x \<in> set (array g) \<Longrightarrow> memberRef x < nextRef g"
    and dbound: "\<And>x. x \<in> set (disposedMembers g) \<Longrightarrow> memberRef x < nextRef g"
    using assms(1) by (auto simp: live_members_def list_all_iff)
  have new_array: "nextRef g \<notin> memberRef ` set (array g)"
    using bound by fastforce
  have new_disposed: "nextRef g \<notin> memberRef ` set (disposedMembers g)"
    using dbound by fastforce
  show ?thesis
    using assms new_array new_disposed bound dbound
    by (auto simp: live_members_def list_all_iff less_Suc_eq)
qed

lemma live_members_cleared:
  assumes "live_members g"
    and "array g' = []" and "nextRef g' = nextRef g"
    and "disposedMembers g' = disposedMembers g @ rev (array g)"
  shows "live_members g'"
  using assms by (auto simp: live_members_def list_all_iff)

text \<open>
  Claim C4. In a group whose members are live and distinct objects: \<open>createNextMember\<close>
  creates the member named prefix, group separator, current counter, appends it to the
  members and leaves the counter one higher (when the validator accepts the member).
  \<open>clear\<close> returns, disposes the members from the last created to the first, leaves
  no member and the counter at zero; the next \<open>createNextMember\<close> then creates the
  member with index 0 again.
\<close>

theorem group_createNextMember_and_clear:
  assumes "live_members g"
  shows "(validator \<lparr>memberName = prefix g @ [GROUP_SEPARATOR] @
                         numberToString (Num (groupElementIndex g)),
                      memberArgs = args, memberRef = nextRef g\<rparr> \<longrightarrow>
            (\<exists>m g1. createNextMember validator g args = Inr (m, g1)
               \<and> memberName m =
                   prefix g @ [GROUP_SEPARATOR] @ numberToString (Num (groupElementIndex g))
               \<and> memberArgs m = args
               \<and> groupElementIndex g1 = groupElementIndex g + 1
               \<and> array g1 = array g @ [m]
               \<and> emitted g1 = emitted g @ [MemberCreated m]
               \<and> prefix g1 = prefix g
               \<and> live_members g1))
       \<and> (\<exists>g2. clear g = Inr g2
               \<and> disposedMembers g2 = disposedMembers g @ rev (array g)
               \<and> emitted g2 = emitted g @ map MemberDisposed (rev (array g))
               \<and> array g2 = []
               \<and> groupElementIndex g2 = 0
               \<and> prefix g2 = prefix g
               \<and> live_members g2
               \<and> (validator \<lparr>memberName = prefix g @ [GROUP_SEPARATOR] @ ''0'',
                              memberArgs = args', memberRef = nextRef g\<rparr> \<longrightarrow>
                    (\<exists>m g3. createNextMember validator g2 args' = Inr (m, g3)
                       \<and> memberName m = prefix g @ [GROUP_SEPARATOR] @ ''0''
                       \<and> array g3 = [m]
                       \<and> groupElementIndex g3 = 1)))"
proof (intro conjI impI)
  let ?name = "prefix g @ [GROUP_SEPARATOR] @ numberToString (Num (groupElementIndex g))"
  let ?m = "\<lparr>memberName = ?name, memberArgs = args, memberRef = nextRef g\<rparr>"
  let ?g0 = "g\<lparr>groupElementIndex := groupElementIndex g + 1\<rparr>"
  let ?g1 = "?g0\<lparr>array := array ?g0 @ [?m], emitted := emitted ?g0 @ [MemberCreated ?m],
                   nextRef := Suc (nextRef ?g0)\<rparr>"
  assume ok: "validator ?m"
  have created: "createNextMember validator g args = Inr (?m, ?g1)"
    unfolding createNextMember_def
    using ok createGroupMember_result [of validator ?g0 "Num (groupElementIndex g)" args]
    by simp
  have "live_members ?g1"
    by (rule live_members_created [OF assms, where m = ?m]) simp_all
  then show "\<exists>m g1. createNextMember validator g args = Inr (m, g1)
      \<and> memberName m = ?name \<and> memberArgs m = args
      \<and> groupElementIndex g1 = groupElementIndex g + 1
      \<and> array g1 = array g @ [m]
      \<and> emitted g1 = emitted g @ [MemberCreated m]
      \<and> prefix g1 = prefix g
      \<and> live_members g1"
    using created
    by (intro exI [of _ ?m] exI [of _ ?g1]) simp
next
  let ?ev = "emitted g @ map MemberDisposed (rev (array g))"
  let ?g2 = "g\<lparr>array := [], emitted := ?ev,
                disposedMembers := disposedMembers g @ rev (array g),
                groupElementIndex := 0\<rparr>"
  let ?m = "\<lparr>memberName = prefix g @ [GROUP_SEPARATOR] @ ''0'', memberArgs = args',
             memberRef = nextRef g\<rparr>"
  let ?g2' = "?g2\<lparr>groupElementIndex := 1\<rparr>"
  let ?g3 = "?g2'\<lparr>array := [?m], emitted := ?ev @ [MemberCreated ?m],
                    nextRef := Suc (nextRef g)\<rparr>"
  have "clear_loop g =
      Inr (g\<lparr>array := [], emitted := ?ev,
             disposedMembers := disposedMembers g @ rev (array g)\<rparr>)"
    using assms clear_loop_reverse [of g "array g"] by (simp add: live_members_def)
  then have cleared: "clear g = Inr ?g2"
    by (simp add: clear_def)
  have live: "live_members ?g2"
    by (rule live_members_cleared [OF assms]) simp_all
  have zero: "numberToString (Num 0) = ''0''"
    by (simp add: numberToString_def natToString.simps digitChar_def)
  have again: "createNextMember validator ?g2 args' = Inr (?m, ?g3)" if ok: "validator ?m"
    unfolding createNextMember_def
    using ok createGroupMember_result [of validator ?g2' "Num 0" args'] zero
    by simp
  show "\<exists>g2. clear g = Inr g2
      \<and> disposedMembers g2 = disposedMembers g @ rev (array g)
      \<and> emitted g2 = emitted g @ map MemberDisposed (rev (array g))
      \<and> array g2 = []
      \<and> groupElementIndex g2 = 0
      \<and> prefix g2 = prefix g
      \<and> live_members g2
      \<and> (validator ?m \<longrightarrow>
            (\<exists>m g3. createNextMember validator g2 args' = Inr (m, g3)
               \<and> memberName m = prefix g @ [GROUP_SEPARATOR] @ ''0''
               \<and> array g3 = [m]
               \<and> groupElementIndex g3 = 1))"
  proof (intro exI [of _ ?g2] conjI impI)
    assume "validator ?m"
    then have "createNextMember validator ?g2 args' = Inr (?m, ?g3)" by (rule again)
    then show "\<exists>m g3. createNextMember validator ?g2 args' = Inr (m, g3)
        \<and> memberName m = prefix g @ [GROUP_SEPARATOR] @ ''0''
        \<and> array g3 = [m] \<and> groupElementIndex g3 = 1"
      by (intro exI [of _ ?m] exI [of _ ?g3]) simp
  qed (use cleared live in simp_all)
qed


theorem group_createNextMember_and_clear_witness:
  "createNextMember (\<lambda>m. True) (new_Group ''particle'') [5::nat] =
     Inr (\<lparr>memberName = ''particle_0'', memberArgs = [5], memberRef = 0\<rparr>,
          \<lparr>prefix = ''particle'',
           array = [\<lparr>memberName = ''particle_0'', memberArgs = [5], memberRef = 0\<rparr>],
           groupElementIndex = 1, nextRef = 1,
           emitted = [MemberCreated \<lparr>memberName = ''particle_0'', memberArgs = [5], memberRef = 0\<rparr>],
           disposedMembers = []\<rparr>)
   \<and> (\<exists>m g1. createNextMember (\<lambda>m. True)
          \<lparr>prefix = ''particle'',
           array = [\<lparr>memberName = ''particle_0'', memberArgs = [5::nat], memberRef = 0\<rparr>],
           groupElementIndex = 1, nextRef = 1,
           emitted = [MemberCreated \<lparr>memberName = ''particle_0'', memberArgs = [5], memberRef = 0\<rparr>],
           disposedMembers = []\<rparr> [7] = Inr (m, g1)
        \<and> memberName m = ''particle_1''
        \<and> array g1 = [\<lparr>memberName = ''particle_0'', memberArgs = [5], memberRef = 0\<rparr>, m]
        \<and> groupElementIndex g1 = 2)
   \<and> (\<exists>g2. clear
          \<lparr>prefix = ''particle'',
           array = [\<lparr>memberName = ''particle_0'', memberArgs = [5::nat], memberRef = 0\<rparr>,
                    \<lparr>memberName = ''particle_1'', memberArgs = [7], memberRef = 1\<rparr>,
                    \<lparr>memberName = ''particle_2'', memberArgs = [8], memberRef = 2\<rparr>],
           groupElementIndex = 3, nextRef = 3,
           emitted = [],
           disposedMembers = []\<rparr> = Inr g2
        \<and> disposedMembers g2 =
             [\<lparr>memberName = ''particle_2'', memberArgs = [8], memberRef = 2\<rparr>,
              \<lparr>memberName = ''particle_1'', memberArgs = [7], memberRef = 1\<rparr>,
              \<lparr>memberName = ''particle_0'', memberArgs = [5], memberRef = 0\<rparr>]
        \<and> array g2 = []
        \<and> groupElementIndex g2 = 0
        \<and> (\<exists>m g3. createNextMember (\<lambda>m. True) g2 [9] = Inr (m, g3)
               \<and> memberName m = ''particle_0''))"
proof (intro conjI)
  show "createNextMember (\<lambda>m. True) (new_Group ''particle'') [5::nat] =
     Inr (\<lparr>memberName = ''particle_0'', memberArgs = [5], memberRef = 0\<rparr>,
          \<lparr>prefix = ''particle'',
           array = [\<lparr>memberName = ''particle_0'', memberArgs = [5], memberRef = 0\<rparr>],
           groupElementIndex = 1, nextRef = 1,
           emitted = [MemberCreated \<lparr>memberName = ''particle_0'', memberArgs = [5], memberRef = 0\<rparr>],
           disposedMembers = []\<rparr>)"
    by (simp add: createNextMember_def createGroupMember_def new_Group_def Let_def
        numberToString_def natToString.simps digitChar_def GROUP_SEPARATOR_def)
next
  let ?g = "\<lparr>prefix = ''particle'',
           array = [\<lparr>memberName = ''particle_0'', memberArgs = [5::nat], memberRef = 0\<rparr>],
           groupElementIndex = 1, nextRef = 1,
           emitted = [MemberCreated \<lparr>memberName = ''particle_0'', memberArgs = [5], memberRef = 0\<rparr>],
           disposedMembers = []\<rparr>"
  have "live_members ?g" by (simp add: live_members_def)
  from group_createNextMember_and_clear [OF this, of "\<lambda>m. True" "[7]" "[]"]
  show "\<exists>m g1. createNextMember (\<lambda>m. True) ?g [7] = Inr (m, g1)
        \<and> memberName m = ''particle_1''
        \<and> array g1 = [\<lparr>memberName = ''particle_0'', memberArgs = [5], memberRef = 0\<rparr>, m]
        \<and> groupElementIndex g1 = 2"
    by (simp add: numberToString_def natToString.simps digitChar_def GROUP_SEPARATOR_def)
      blast
next
  let ?g = "\<lparr>prefix = ''particle'',
           array = [\<lparr>memberName = ''particle_0'', memberArgs = [5::nat], memberRef = 0\<rparr>,
                    \<lparr>memberName = ''particle_1'', memberArgs = [7], memberRef = 1\<rparr>,
                    \<lparr>memberName = ''particle_2'', memberArgs = [8], memberRef = 2\<rparr>],
           groupElementIndex = 3, nextRef = 3,
           emitted = [],
           disposedMembers = []\<rparr>"
  have "live_members ?g" by (simp add: live_members_def)
  from group_createNextMember_and_clear [OF this, of "\<lambda>m. True" "[]" "[9]"]
  show "\<exists>g2. clear ?g = Inr g2
        \<and> disposedMembers g2 =
             [\<lparr>memberName = ''particle_2'', memberArgs = [8], memberRef = 2\<rparr>,
              \<lparr>memberName = ''particle_1'', memberArgs = [7], memberRef = 1\<rparr>,
              \<lparr>memberName = ''particle_0'', memberArgs = [5], memberRef = 0\<rparr>]
        \<and> array g2 = []
        \<and> groupElementIndex g2 = 0
        \<and> (\<exists>m g3. createNextMember (\<lambda>m. True) g2 [9] = Inr (m, g3)
               \<and> memberName m = ''particle_0'')"
    by (simp add: GROUP_SEPARATOR_def) blast
qed

lemma createCorrespondingGroupMember_counter:
  assumes "parseInt (element_at (split_js peerName GROUP_SEPARATOR) 1) = Num i"
    and "createCorrespondingGroupMember validator g peerName args = Inr (m, g')"
  shows "memberName m = prefix g @ [GROUP_SEPARATOR] @ numberToString (Num i)
       \<and> groupElementIndex g' =
           (if groupElementIndex g = i then i + 1 else groupElementIndex g)"
  using assms
  by (auto simp: createCorrespondingGroupMember_def createGroupMember_def Let_def
      split: if_splits)

text \<open>
  Claim C6, evaluated on the code. \<open>createCorrespondingGroupMember\<close> creates the member
  at the peer's index, and moves the counter only when the counter equals that index.
  With the counter at 0 and the peer \<^verbatim>\<open>electron_1\<close> the member \<^verbatim>\<open>electronNode_1\<close> is
  created and the counter stays 0; the second \<open>createNextMember\<close> after it creates a
  second live member \<^verbatim>\<open>electronNode_1\<close>. The sibling in PhetioGroupIO moves the counter
  to the larger of index + 1 and the counter, here 2.
\<close>

theorem createCorrespondingGroupMember_leaves_counter_behind:
  "(case createCorrespondingGroupMember (\<lambda>m. True) (new_Group ''electronNode'')
           ''electron_1'' [1::nat] of
      Inl e \<Rightarrow> None
    | Inr (m, g1) \<Rightarrow>
        (case createNextMember (\<lambda>m. True) g1 [2] of
           Inl e \<Rightarrow> None
         | Inr (m0, g2) \<Rightarrow>
             (case createNextMember (\<lambda>m. True) g2 [3] of
                Inl e \<Rightarrow> None
              | Inr (m1, g3) \<Rightarrow>
                  Some (memberName m, groupElementIndex g1, map memberName (array g3),
                        map memberRef (array g3), disposedMembers g3))))
     = Some (''electronNode_1'', 0,
             [''electronNode_1'', ''electronNode_0'', ''electronNode_1''], [0, 1, 2], [])
   \<and> addChildInstance_counter 1 0 = 2"
  by code_simp


section \<open>Properties of the parametric type constructors\<close>

lemma FunctionIO_memoizes:
  "FunctionIO r ps st = (t, st') \<Longrightarrow> FunctionIO r ps st' = (t, st')"
  by (auto simp: FunctionIO_def Let_def split: option.splits)

lemma PhetioGroupIO_memoizes:
  "PhetioGroupIO p st = (t, st') \<Longrightarrow> PhetioGroupIO p st' = (t, st')"
  by (auto simp: PhetioGroupIO_def Let_def split: option.splits)

lemma FunctionIO_cache_persists:
  "functionCache st k = Some t \<Longrightarrow> functionCache (snd (FunctionIO r ps st)) k = Some t"
  by (auto simp: FunctionIO_def Let_def split: option.splits)

lemma PhetioGroupIO_cache_persists:
  "groupCache st k = Some t \<Longrightarrow> groupCache (snd (PhetioGroupIO p st)) k = Some t"
  by (auto simp: PhetioGroupIO_def Let_def split: option.splits)

lemma FunctionIO_name:
  "functionCache st (typeName r @ ''.'' @ join_js '','' (map typeName ps)) = None \<Longrightarrow>
   typeName (fst (FunctionIO r ps st)) =
     ''FunctionIO('' @ join_js '','' (map typeName ps) @ '')=>'' @ typeName r"
  by (simp add: FunctionIO_def create_FunctionIO_def Let_def)

lemma PhetioGroupIO_name:
  "groupCache st (typeName p) = None \<Longrightarrow>
   typeName (fst (PhetioGroupIO p st)) = ''PhetioGroupIO<'' @ typeName p @ ''>''"
  by (simp add: PhetioGroupIO_def create_PhetioGroupIO_def Let_def)

lemma ArrayIO_always_new:
  "typeRef (fst (ArrayIO e (snd (ArrayIO e st)))) \<noteq> typeRef (fst (ArrayIO e st))
   \<and> typeName (fst (ArrayIO e st)) = ''ArrayIO''"
  by (simp add: ArrayIO_def)

text \<open>
  Claim C2, evaluated on the code. With the parameter type \<^verbatim>\<open>NumberIO\<close>, two calls of
  \<open>FunctionIO\<close> and two calls of \<open>PhetioGroupIO\<close> return the same object, named from
  the parameter's name. Two calls of \<open>ArrayIO\<close> return two objects (references 1 and 2),
  both named \<^verbatim>\<open>ArrayIO\<close>.
\<close>

theorem ArrayIO_second_call_returns_another_object:
  "fst (ArrayIO (TypeObj 0 ''NumberIO'' []) (initial_types 1))
     = TypeObj 1 ''ArrayIO'' [TypeObj 0 ''NumberIO'' []]
   \<and> fst (ArrayIO (TypeObj 0 ''NumberIO'' [])
            (snd (ArrayIO (TypeObj 0 ''NumberIO'' []) (initial_types 1))))
     = TypeObj 2 ''ArrayIO'' [TypeObj 0 ''NumberIO'' []]
   \<and> fst (FunctionIO (TypeObj 0 ''NumberIO'' []) [TypeObj 0 ''NumberIO'' []] (initial_types 1))
     = TypeObj 1 ''FunctionIO(NumberIO)=>NumberIO''
         [TypeObj 0 ''NumberIO'' [], TypeObj 0 ''NumberIO'' []]
   \<and> fst (FunctionIO (TypeObj 0 ''NumberIO'' []) [TypeObj 0 ''NumberIO'' []]
            (snd (FunctionIO (TypeObj 0 ''NumberIO'' []) [TypeObj 0 ''NumberIO'' []]
                   (initial_types 1))))
     = fst (FunctionIO (TypeObj 0 ''NumberIO'' []) [TypeObj 0 ''NumberIO'' []] (initial_types 1))
   \<and> fst (PhetioGroupIO (TypeObj 0 ''NumberIO'' []) (initial_types 1))
     = TypeObj 1 ''PhetioGroupIO<NumberIO>'' [TypeObj 0 ''NumberIO'' []]
   \<and> fst (PhetioGroupIO (TypeObj 0 ''NumberIO'' [])
            (snd (PhetioGroupIO (TypeObj 0 ''NumberIO'' []) (initial_types 1))))
     = fst (PhetioGroupIO (TypeObj 0 ''NumberIO'' []) (initial_types 1))"
  by (simp add: ArrayIO_def FunctionIO_def PhetioGroupIO_def create_FunctionIO_def
      create_PhetioGroupIO_def initial_types_def Let_def)


section \<open>Properties of the event stack\<close>

lemma pop_snoc: "pop (xs @ [x]) = (Some x, xs)"
  by (simp add: pop_def)

lemma pop_empty: "pop [] = (None, [])"
  by (simp add: pop_def)

text \<open>
  Claim C5. For an instrumented object, \<open>phetioEndEvent\<close> pops the most recent frame.
  When that frame is the sentinel of a suppressed high-frequency event nothing else
  happens; otherwise the sink is told to end exactly that sequence id, and the result is
  the sink's. On an empty stack the call fails: the popped value is \<^verbatim>\<open>undefined\<close>, which
  the sink refuses.
\<close>

theorem phetioEndEvent_pops_most_recent_frame:
  assumes "isPhetioInstrumented env obj"
  shows "(phetioMessageStack obj = frames @ [topFrame] \<and> topFrame = SKIPPING_HIGH_FREQUENCY_MESSAGE \<longrightarrow>
            phetioEndEvent env close obj s = Inr (obj\<lparr>phetioMessageStack := frames\<rparr>, s))
       \<and> (phetioMessageStack obj = frames @ [topFrame] \<and> topFrame \<noteq> SKIPPING_HIGH_FREQUENCY_MESSAGE \<longrightarrow>
            phetioEndEvent env close obj s =
              (case close s topFrame of
                 Inl e \<Rightarrow> Inl e
               | Inr s' \<Rightarrow> Inr (obj\<lparr>phetioMessageStack := frames\<rparr>, s')))
       \<and> (phetioMessageStack obj = [] \<longrightarrow>
            phetioEndEvent env close obj s = Inl AssertionError)"
  using assms
  by (auto simp: phetioEndEvent_def Let_def pop_snoc pop_empty isPhetioInstrumented_def
      dataStream_end_def split: sum.splits)

theorem phetioEndEvent_pops_most_recent_frame_witness:
  "phetioEndEvent
      \<lparr>PHET_IO_ENABLED = True, phetioGlobal = True, phetioEmitHighFrequencyEvents = False\<rparr>
      (\<lambda>s i. if s \<noteq> [] \<and> last s = i then Inr (butlast s) else Inl AssertionError)
      \<lparr>phetioObjectInitialized = True, tandemSupplied = Some True, phetioHighFrequency = False,
       phetioMessageStack = [4, - 1]\<rparr> [3, 4 :: int]
    = Inr (\<lparr>phetioObjectInitialized = True, tandemSupplied = Some True,
            phetioHighFrequency = False, phetioMessageStack = [4]\<rparr>, [3, 4])
   \<and> phetioEndEvent
      \<lparr>PHET_IO_ENABLED = True, phetioGlobal = True, phetioEmitHighFrequencyEvents = False\<rparr>
      (\<lambda>s i. if s \<noteq> [] \<and> last s = i then Inr (butlast s) else Inl AssertionError)
      \<lparr>phetioObjectInitialized = True, tandemSupplied = Some True, phetioHighFrequency = False,
       phetioMessageStack = [4]\<rparr> [3, 4 :: int]
    = Inr (\<lparr>phetioObjectInitialized = True, tandemSupplied = Some True,
            phetioHighFrequency = False, phetioMessageStack = []\<rparr>, [3])
   \<and> phetioEndEvent
      \<lparr>PHET_IO_ENABLED = True, phetioGlobal = True, phetioEmitHighFrequencyEvents = False\<rparr>
      (\<lambda>s i. if s \<noteq> [] \<and> last s = i then Inr (butlast s) else Inl AssertionError)
      \<lparr>phetioObjectInitialized = True, tandemSupplied = Some True, phetioHighFrequency = False,
       phetioMessageStack = []\<rparr> [3 :: int]
    = Inl AssertionError"
  using
    phetioEndEvent_pops_most_recent_frame
      [of "\<lparr>PHET_IO_ENABLED = True, phetioGlobal = True, phetioEmitHighFrequencyEvents = False\<rparr>"
          "\<lparr>phetioObjectInitialized = True, tandemSupplied = Some True,
            phetioHighFrequency = False, phetioMessageStack = [4, - 1]\<rparr>"
          "[4]" "- 1"
          "\<lambda>s i. if s \<noteq> [] \<and> last s = i then Inr (butlast s) else Inl AssertionError"
          "[3, 4 :: int]"]
    phetioEndEvent_pops_most_recent_frame
      [of "\<lparr>PHET_IO_ENABLED = True, phetioGlobal = True, phetioEmitHighFrequencyEvents = False\<rparr>"
          "\<lparr>phetioObjectInitialized = True, tandemSupplied = Some True,
            phetioHighFrequency = False, phetioMessageStack = [4]\<rparr>"
          "[]" "4"
          "\<lambda>s i. if s \<noteq> [] \<and> last s = i then Inr (butlast s) else Inl AssertionError"
          "[3, 4 :: int]"]
    phetioEndEvent_pops_most_recent_frame
      [of "\<lparr>PHET_IO_ENABLED = True, phetioGlobal = True, phetioEmitHighFrequencyEvents = False\<rparr>"
          "\<lparr>phetioObjectInitialized = True, tandemSupplied = Some True,
            phetioHighFrequency = False, phetioMessageStack = []\<rparr>"
          "[]" "0"
          "\<lambda>s i. if s \<noteq> [] \<and> last s = i then Inr (butlast s) else Inl AssertionError"
          "[3 :: int]"]
  by (simp add: isPhetioInstrumented_def SKIPPING_HIGH_FREQUENCY_MESSAGE_def)


section \<open>Properties of the composite serializations\<close>

lemma push_each_length: "push_each f xs = Inr ys \<Longrightarrow> length ys = length xs"
  by (induction xs arbitrary: ys) (auto split: sum.splits)

lemma push_each_nth:
  "push_each f xs = Inr ys \<Longrightarrow> i < length xs \<Longrightarrow> f (xs ! i) = Inr (ys ! i)"
proof (induction xs arbitrary: ys i)
  case Nil
  then show ?case by simp
next
  case (Cons x xs)
  then show ?case by (cases i) (auto split: sum.splits)
qed

lemma push_each_round_trip:
  assumes "\<And>x. x \<in> set xs \<Longrightarrow> \<exists>s. enc x = Inr s \<and> dec s = Inr x"
  shows "\<exists>ss. push_each enc xs = Inr ss \<and> push_each dec ss = Inr xs"
  using assms
proof (induction xs)
  case Nil
  then show ?case by simp
next
  case (Cons x xs)
  obtain s where s: "enc x = Inr s" "dec s = Inr x"
    using Cons.prems [of x] by auto
  obtain ss where ss: "push_each enc xs = Inr ss" "push_each dec ss = Inr xs"
    using Cons by auto
  show ?case using s ss by simp
qed

text \<open>
  A parameter type that round-trips on the numbers and writes 0 as \<^verbatim>\<open>null\<close>: under
  \<open>NullableIO\<close> the number 0 is written as \<^verbatim>\<open>null\<close> and read back as \<^verbatim>\<open>null\<close>,
  so the composite type does not round-trip.
\<close>

theorem nullable_null_state_counterexample:
  "round_trips zero_as_null is_number
   \<and> NullableIO_toStateObject zero_as_null (JSNum 0) = Inr JSNull
   \<and> NullableIO_fromStateObject zero_as_null JSNull = Inr JSNull
   \<and> \<not> round_trips (NullableIO zero_as_null) (\<lambda>x. x = JSNull \<or> is_number x)"
proof -
  have rt: "round_trips zero_as_null is_number"
    by (auto simp: round_trips_def zero_as_null_def is_number_def split: jsvalue.splits)
  have ser: "NullableIO_toStateObject zero_as_null (JSNum 0) = Inr JSNull"
    by (simp add: NullableIO_toStateObject_def zero_as_null_def)
  have deser: "NullableIO_fromStateObject zero_as_null JSNull = Inr JSNull"
    by (simp add: NullableIO_fromStateObject_def)
  have "\<not> round_trips (NullableIO zero_as_null) (\<lambda>x. x = JSNull \<or> is_number x)"
  proof
    assume "round_trips (NullableIO zero_as_null) (\<lambda>x. x = JSNull \<or> is_number x)"
    then have "\<exists>s. toStateObject (NullableIO zero_as_null) (JSNum 0) = Inr s
        \<and> fromStateObject (NullableIO zero_as_null) s = Inr (JSNum 0)"
      unfolding round_trips_def by (simp add: is_number_def)
    then show False
      using ser deser by (auto simp: NullableIO_def)
  qed
  then show ?thesis using rt ser deser by simp
qed

text \<open>
  Claim C8, as the code has it. \<open>NullableIO\<close> maps \<^verbatim>\<open>null\<close> to \<^verbatim>\<open>null\<close> in both
  directions and hands every other argument to the parameter type, \<^emph>\<open>deciding by the
  argument it is given\<close>: \<open>fromStateObject\<close> looks at the state object. So
  \<open>NullableIO T\<close> round-trips on \<^verbatim>\<open>null\<close> and the values of \<open>T\<close> when \<open>T\<close>
  round-trips and never writes a value other than \<^verbatim>\<open>null\<close> as \<^verbatim>\<open>null\<close>. \<open>ArrayIO T\<close>
  round-trips on the arrays of values of \<open>T\<close> whenever \<open>T\<close> round-trips; it writes an
  array element by element, keeping length and order.
\<close>

theorem composite_types_round_trip:
  assumes "round_trips T D"
  shows "NullableIO_toStateObject T JSNull = Inr JSNull
       \<and> NullableIO_fromStateObject T JSNull = Inr JSNull
       \<and> (x \<noteq> JSNull \<longrightarrow> NullableIO_toStateObject T x = toStateObject T x)
       \<and> (x \<noteq> JSNull \<longrightarrow> NullableIO_fromStateObject T x = fromStateObject T x)
       \<and> ((\<forall>v. D v \<and> v \<noteq> JSNull \<longrightarrow> toStateObject T v \<noteq> Inr JSNull) \<longrightarrow>
            round_trips (NullableIO T) (\<lambda>v. v = JSNull \<or> D v))
       \<and> round_trips (ArrayIO_serialization T) (\<lambda>v. \<exists>xs. v = JSArr xs \<and> list_all D xs)
       \<and> (list_all D xs \<longrightarrow>
            (\<exists>ss. ArrayIO_toStateObject T (JSArr xs) = Inr (JSArr ss)
               \<and> length ss = length xs
               \<and> (\<forall>i < length xs. toStateObject T (xs ! i) = Inr (ss ! i))
               \<and> ArrayIO_fromStateObject T (JSArr ss) = Inr (JSArr xs)))"
proof -
  have elem: "\<exists>s. toStateObject T v = Inr s \<and> fromStateObject T s = Inr v" if "D v" for v
    using assms that by (simp add: round_trips_def)
  have nullable: "round_trips (NullableIO T) (\<lambda>v. v = JSNull \<or> D v)"
    if keeps: "\<forall>v. D v \<and> v \<noteq> JSNull \<longrightarrow> toStateObject T v \<noteq> Inr JSNull"
    unfolding round_trips_def
  proof (intro allI impI)
    fix v assume dom: "v = JSNull \<or> D v"
    show "\<exists>s. toStateObject (NullableIO T) v = Inr s \<and> fromStateObject (NullableIO T) s = Inr v"
    proof (cases "v = JSNull")
      case True
      then show ?thesis
        by (simp add: NullableIO_def NullableIO_toStateObject_def NullableIO_fromStateObject_def)
    next
      case False
      then have "D v" using dom by simp
      then obtain s where s: "toStateObject T v = Inr s" "fromStateObject T s = Inr v"
        using elem by blast
      have "s \<noteq> JSNull" using keeps \<open>D v\<close> False s(1) by auto
      then show ?thesis
        using False s
        by (simp add: NullableIO_def NullableIO_toStateObject_def NullableIO_fromStateObject_def)
    qed
  qed
  have arrays: "\<exists>ss. ArrayIO_toStateObject T (JSArr ys) = Inr (JSArr ss)
      \<and> length ss = length ys
      \<and> (\<forall>i < length ys. toStateObject T (ys ! i) = Inr (ss ! i))
      \<and> ArrayIO_fromStateObject T (JSArr ss) = Inr (JSArr ys)"
    if all: "list_all D ys" for ys
  proof -
    have "\<And>y. y \<in> set ys \<Longrightarrow> \<exists>s. toStateObject T y = Inr s \<and> fromStateObject T s = Inr y"
      using all elem by (simp add: list_all_iff)
    then obtain ss where ss: "push_each (toStateObject T) ys = Inr ss"
        "push_each (fromStateObject T) ss = Inr ys"
      using push_each_round_trip [of ys "toStateObject T" "fromStateObject T"] by blast
    show ?thesis
      using ss push_each_length [OF ss(1)] push_each_nth [OF ss(1)]
      by (intro exI [of _ ss])
        (simp add: ArrayIO_toStateObject_def ArrayIO_fromStateObject_def)
  qed
  have array_rt: "round_trips (ArrayIO_serialization T) (\<lambda>v. \<exists>xs. v = JSArr xs \<and> list_all D xs)"
    unfolding round_trips_def
  proof (intro allI impI)
    fix v assume "\<exists>xs. v = JSArr xs \<and> list_all D xs"
    then obtain ys where ys: "v = JSArr ys" "list_all D ys" by blast
    from arrays [OF ys(2)] show "\<exists>s. toStateObject (ArrayIO_serialization T) v = Inr s
        \<and> fromStateObject (ArrayIO_serialization T) s = Inr v"
      using ys(1) by (auto simp: ArrayIO_serialization_def)
  qed
  show ?thesis
    using nullable array_rt arrays [of xs]
    by (simp add: NullableIO_toStateObject_def NullableIO_fromStateObject_def)
qed

theorem composite_types_round_trip_witness:
  "round_trips identity_type is_number
   \<and> NullableIO_toStateObject identity_type JSNull = Inr JSNull
   \<and> NullableIO_toStateObject identity_type (JSNum 5) = Inr (JSNum 5)
   \<and> round_trips (NullableIO identity_type) (\<lambda>v. v = JSNull \<or> is_number v)
   \<and> round_trips (ArrayIO_serialization identity_type)
        (\<lambda>v. \<exists>xs. v = JSArr xs \<and> list_all is_number xs)
   \<and> ArrayIO_toStateObject identity_type (JSArr [JSNum 1, JSNum 2, JSNum 3])
       = Inr (JSArr [JSNum 1, JSNum 2, JSNum 3])
   \<and> ArrayIO_fromStateObject identity_type (JSArr [JSNum 1, JSNum 2, JSNum 3])
       = Inr (JSArr [JSNum 1, JSNum 2, JSNum 3])"
proof -
  have rt: "round_trips identity_type is_number"
    by (simp add: round_trips_def identity_type_def)
  have keeps: "\<forall>v. is_number v \<and> v \<noteq> JSNull \<longrightarrow> toStateObject identity_type v \<noteq> Inr JSNull"
    by (simp add: identity_type_def)
  from composite_types_round_trip [OF rt, of "JSNum 5" "[JSNum 1, JSNum 2, JSNum 3]"] keeps rt
  show ?thesis
    by (simp add: is_number_def identity_type_def ArrayIO_toStateObject_def
        ArrayIO_fromStateObject_def)
qed


end
